theory Spec2Isabelle
  imports Main "HOL-Library.Char_ord" "HOL-Library.List_Lexorder" "HOL-Library.Multiset"
begin

section \<open>Credential and record store of the desktop application (src/main.py)\<close>

text \<open>
  The development embeds the classes \<open>Database\<close> of \<open>src/main.py\<close>: password hashing and
  verification, registration, login, and the per-user record table. A Python \<open>str\<close> is a
  \<open>string\<close> holding its UTF-8 encoding, so \<open>str.encode()\<close> is the identity on the
  representation and the separator \<open>$\<close> (one ASCII byte) is found at the same places in
  both. Whatever the program takes from outside is an argument of the model: the key
  derivation function of \<open>hashlib\<close>, the bytes of the operating system's random source
  and the value of SQLite's \<open>CURRENT_TIMESTAMP\<close>.
\<close>

subsection \<open>Strings and bytes\<close>

type_synonym bytes = "char list"

text \<open>\<open>hashlib.pbkdf2_hmac(hash_name, password, salt, iterations)\<close>, a library function.\<close>

type_synonym pbkdf2 = "string \<Rightarrow> bytes \<Rightarrow> bytes \<Rightarrow> nat \<Rightarrow> bytes"

datatype py_error = ValueError

definition encode :: "string \<Rightarrow> bytes" where
  "encode s = s"

definition hex_digit :: "nat \<Rightarrow> char" where
  "hex_digit n = ''0123456789abcdef'' ! n"

text \<open>\<open>bytes.hex()\<close>: two lower-case hexadecimal digits for each byte.\<close>

definition bytes_hex :: "bytes \<Rightarrow> string" where
  "bytes_hex bs =
     concat (map (\<lambda>b. [hex_digit (of_char b div 16), hex_digit (of_char b mod 16)]) bs)"

text \<open>\<open>secrets.token_hex(nbytes)\<close>: \<open>nbytes\<close> bytes of the random source, in hexadecimal.\<close>

definition token_hex :: "nat \<Rightarrow> bytes \<Rightarrow> string" where
  "token_hex nbytes entropy = bytes_hex (take nbytes entropy)"

text \<open>
  \<open>str.split(sep)\<close> for a separator of one character: the pieces between the occurrences
  of \<open>sep\<close>, so one piece more than there are occurrences. (The recursive call always
  returns a non-empty list; the branch for \<open>[]\<close> is there for totality only.)
\<close>

fun str_split :: "char \<Rightarrow> string \<Rightarrow> string list" where
  "str_split sep [] = [[]]"
| "str_split sep (c # cs) =
     (if c = sep then [] # str_split sep cs
      else (case str_split sep cs of
              [] \<Rightarrow> [[c]]
            | p # ps \<Rightarrow> (c # p) # ps))"

text \<open>The alphabet of hexadecimal digits, in both cases.\<close>

definition is_hex :: "string \<Rightarrow> bool" where
  "is_hex s = list_all (\<lambda>c. c \<in> set ''0123456789abcdefABCDEF'') s"

subsection \<open>Password hashing (Database.hash_password, Database.verify_password)\<close>

text \<open>
  \<open>hash_password(password, salt=None)\<close>. The argument \<open>entropy\<close> is what the random source
  would return; it is read only when no salt is given.
\<close>

definition hash_password :: "pbkdf2 \<Rightarrow> bytes \<Rightarrow> string \<Rightarrow> string option \<Rightarrow> string" where
  "hash_password pbkdf2_hmac entropy password salt =
     (let salt' = (case salt of None \<Rightarrow> token_hex 16 entropy | Some s \<Rightarrow> s);
          hashed = pbkdf2_hmac ''sha256'' (encode password) (encode salt') 100000
      in salt' @ ''$'' @ bytes_hex hashed)"

text \<open>
  \<open>verify_password(stored_password, provided_password)\<close>. The tuple assignment
  \<open>salt, hashed = stored_password.split('$')\<close> raises \<open>ValueError\<close> unless the list has
  exactly two elements. The salt handed to \<open>hash_password\<close> is a \<open>str\<close>, never \<open>None\<close>, so
  no randomness is drawn.
\<close>

definition verify_password :: "pbkdf2 \<Rightarrow> string \<Rightarrow> string \<Rightarrow> py_error + bool" where
  "verify_password pbkdf2_hmac stored_password provided_password =
     (case str_split (CHR ''$'') stored_password of
        [salt, hashed] \<Rightarrow>
          Inr (hash_password pbkdf2_hmac [] provided_password (Some salt) = stored_password)
      | _ \<Rightarrow> Inl ValueError)"

text \<open>A stand-in for the key derivation function, used where a concrete run is shown.\<close>

definition toy_kdf :: pbkdf2 where
  "toy_kdf hash_name password salt iterations = salt @ password"

subsection \<open>The SQLite store (Database.create_tables)\<close>

text \<open>
  \<open>CURRENT_TIMESTAMP\<close> is the text \<open>YYYY-MM-DD HH:MM:SS\<close>; SQLite compares text bytewise,
  which is the lexicographic order of \<open>string\<close>.
\<close>

type_synonym timestamp = string

text \<open>Subclasses of \<open>sqlite3.Error\<close>, the exception the methods catch.\<close>

datatype sqlite_error = ProgrammingError | OperationalError | IntegrityError

text \<open>
  Table \<open>users\<close>. The program writes every column but \<open>last_login\<close> at insertion
  (\<open>created_at\<close> and \<open>is_active\<close> by their defaults), so only \<open>last_login\<close> can be \<open>NULL\<close>.
\<close>

record user_row =
  u_id :: int
  u_username :: string
  u_password :: string
  u_email :: string
  u_created_at :: timestamp
  u_last_login :: "timestamp option"
  u_is_active :: int

text \<open>Table \<open>user_data\<close>.\<close>

record data_row =
  d_id :: int
  d_user_id :: int
  d_title :: string
  d_data :: string
  d_category :: string
  d_created_at :: timestamp
  d_updated_at :: timestamp

text \<open>Table \<open>login_attempts\<close>.\<close>

record attempt_row =
  a_id :: int
  a_username :: string
  a_ip_address :: "string option"
  a_attempt_time :: timestamp
  a_success :: int

text \<open>
  The connection with its three tables, rows in insertion order. \<open>store_fault\<close> is the
  error with which SQLite answers a statement, if any: \<open>ProgrammingError\<close> once the
  connection is closed, \<open>OperationalError\<close> while the file is locked or unreadable.
\<close>

record database =
  store_fault :: "sqlite_error option"
  users :: "user_row list"
  user_data :: "data_row list"
  login_attempts :: "attempt_row list"

text \<open>\<open>Database()\<close> on a new file: the tables exist and are empty.\<close>

definition init_db :: database where
  "init_db = \<lparr>store_fault = None, users = [], user_data = [], login_attempts = []\<rparr>"

text \<open>\<open>Database.close\<close>: every later statement raises \<open>ProgrammingError\<close>.\<close>

definition close :: "database \<Rightarrow> database" where
  "close db = db\<lparr>store_fault := Some ProgrammingError\<rparr>"

text \<open>
  \<open>INTEGER PRIMARY KEY AUTOINCREMENT\<close>: one more than the largest id handed out. No
  statement of the program deletes a row, so that is the largest id in the table.
\<close>

definition next_id :: "int list \<Rightarrow> int" where
  "next_id ids = fold max ids 0 + 1"

text \<open>\<open>cursor.fetchone()\<close>: the first row of the result, or \<open>None\<close>.\<close>

definition fetchone :: "'a list \<Rightarrow> 'a option" where
  "fetchone rows = (case rows of [] \<Rightarrow> None | r # _ \<Rightarrow> Some r)"

text \<open>\<open>SELECT ... FROM users WHERE ...\<close>\<close>

definition select_users :: "database \<Rightarrow> (user_row \<Rightarrow> bool) \<Rightarrow> sqlite_error + user_row list" where
  "select_users db cond =
     (case store_fault db of
        Some e \<Rightarrow> Inl e
      | None \<Rightarrow> Inr (filter cond (users db)))"

text \<open>
  \<open>INSERT INTO users (username, password, email) VALUES (?, ?, ?)\<close> with the commit. The
  columns \<open>username\<close> and \<open>email\<close> are \<open>UNIQUE\<close>: a second row with the same value is
  refused with \<open>IntegrityError\<close>.
\<close>

definition insert_user ::
  "database \<Rightarrow> timestamp \<Rightarrow> string \<Rightarrow> string \<Rightarrow> string \<Rightarrow> sqlite_error + database" where
  "insert_user db now username password email =
     (case store_fault db of
        Some e \<Rightarrow> Inl e
      | None \<Rightarrow>
          if username \<in> set (map u_username (users db)) \<or> email \<in> set (map u_email (users db))
          then Inl IntegrityError
          else Inr (db\<lparr>users := users db @
                 [\<lparr>u_id = next_id (map u_id (users db)), u_username = username,
                   u_password = password, u_email = email, u_created_at = now,
                   u_last_login = None, u_is_active = 1\<rparr>]\<rparr>))"

text \<open>\<open>UPDATE users SET last_login = CURRENT_TIMESTAMP WHERE id = ?\<close> with the commit.\<close>

definition update_last_login :: "database \<Rightarrow> int \<Rightarrow> timestamp \<Rightarrow> sqlite_error + database" where
  "update_last_login db uid now =
     (case store_fault db of
        Some e \<Rightarrow> Inl e
      | None \<Rightarrow>
          Inr (db\<lparr>users :=
                 map (\<lambda>r. if u_id r = uid then r\<lparr>u_last_login := Some now\<rparr> else r) (users db)\<rparr>))"

text \<open>
  \<open>INSERT INTO user_data (user_id, title, data, category) VALUES (?, ?, ?, ?)\<close> with the
  commit. Foreign keys are enforced (\<open>PRAGMA foreign_keys = ON\<close>): \<open>user_id\<close> must be the
  id of a row of \<open>users\<close>.
\<close>

definition insert_user_data ::
  "database \<Rightarrow> timestamp \<Rightarrow> int \<Rightarrow> string \<Rightarrow> string \<Rightarrow> string \<Rightarrow> sqlite_error + database" where
  "insert_user_data db now user_id title data category =
     (case store_fault db of
        Some e \<Rightarrow> Inl e
      | None \<Rightarrow>
          if user_id \<notin> set (map u_id (users db)) then Inl IntegrityError
          else Inr (db\<lparr>user_data := user_data db @
                 [\<lparr>d_id = next_id (map d_id (user_data db)), d_user_id = user_id,
                   d_title = title, d_data = data, d_category = category,
                   d_created_at = now, d_updated_at = now\<rparr>]\<rparr>))"

text \<open>
  \<open>SELECT id, title, data, category, created_at FROM user_data WHERE ... ORDER BY
  created_at DESC\<close>. SQL leaves the order of rows with equal \<open>created_at\<close> open; the model
  fixes one.
\<close>

type_synonym data_tuple = "int \<times> string \<times> string \<times> string \<times> timestamp"

definition data_columns :: "data_row \<Rightarrow> data_tuple" where
  "data_columns r = (d_id r, d_title r, d_data r, d_category r, d_created_at r)"

definition select_user_data ::
  "database \<Rightarrow> (data_row \<Rightarrow> bool) \<Rightarrow> sqlite_error + data_tuple list" where
  "select_user_data db cond =
     (case store_fault db of
        Some e \<Rightarrow> Inl e
      | None \<Rightarrow>
          Inr (map data_columns (rev (sort_key d_created_at (filter cond (user_data db))))))"

text \<open>\<open>SELECT DISTINCT category FROM user_data WHERE user_id = ? ORDER BY category\<close>\<close>

definition select_categories :: "database \<Rightarrow> int \<Rightarrow> sqlite_error + string list" where
  "select_categories db user_id =
     (case store_fault db of
        Some e \<Rightarrow> Inl e
      | None \<Rightarrow>
          Inr (sort (remdups (map d_category
                 (filter (\<lambda>r. d_user_id r = user_id) (user_data db))))))"

subsection \<open>Registration and login (Database.register_user, Database.login_user)\<close>

text \<open>
  The second component of the pair \<open>register_user\<close> returns: the message for a user that
  exists already (here \<open>DuplicateUser\<close>), the message of success, and the message built
  from a caught \<open>sqlite3.Error\<close>.
\<close>

datatype register_msg = DuplicateUser | RegistrationOk | RegisterDbError sqlite_error

definition register_user ::
  "pbkdf2 \<Rightarrow> bytes \<Rightarrow> timestamp \<Rightarrow> database \<Rightarrow> string \<Rightarrow> string \<Rightarrow> string
     \<Rightarrow> (bool \<times> register_msg) \<times> database" where
  "register_user pbkdf2_hmac entropy now db username password email =
     (case select_users db (\<lambda>r. u_username r = username \<or> u_email r = email) of
        Inl e \<Rightarrow> ((False, RegisterDbError e), db)
      | Inr rows \<Rightarrow>
          (case fetchone rows of
             Some existing \<Rightarrow> ((False, DuplicateUser), db)
           | None \<Rightarrow>
               (let hashed_password = hash_password pbkdf2_hmac entropy password None
                in case insert_user db now username hashed_password email of
                     Inl e \<Rightarrow> ((False, RegisterDbError e), db)
                   | Inr db' \<Rightarrow> ((True, RegistrationOk), db'))))"

text \<open>
  The second component of the pair \<open>login_user\<close> returns: the dictionary with \<open>id\<close> and
  \<open>username\<close>, or one of the three messages. A \<open>ValueError\<close> of \<open>verify_password\<close> is not
  an \<open>sqlite3.Error\<close> and leaves the method as an exception.
\<close>

datatype login_payload =
  UserInfo int string | NotFoundOrInactive | WrongPassword | LoginDbError sqlite_error

definition login_user ::
  "pbkdf2 \<Rightarrow> timestamp \<Rightarrow> database \<Rightarrow> string \<Rightarrow> string
     \<Rightarrow> (py_error + bool \<times> login_payload) \<times> database" where
  "login_user pbkdf2_hmac now db username password =
     (case select_users db (\<lambda>r. u_username r = username \<and> u_is_active r = 1) of
        Inl e \<Rightarrow> (Inr (False, LoginDbError e), db)
      | Inr rows \<Rightarrow>
          (case fetchone rows of
             None \<Rightarrow> (Inr (False, NotFoundOrInactive), db)
           | Some user \<Rightarrow>
               (case verify_password pbkdf2_hmac (u_password user) password of
                  Inl exn \<Rightarrow> (Inl exn, db)
                | Inr True \<Rightarrow>
                    (case update_last_login db (u_id user) now of
                       Inl e \<Rightarrow> (Inr (False, LoginDbError e), db)
                     | Inr db' \<Rightarrow> (Inr (True, UserInfo (u_id user) (u_username user)), db'))
                | Inr False \<Rightarrow> (Inr (False, WrongPassword), db))))"

subsection \<open>Records (Database.save_user_data, get_user_data, get_categories)\<close>

text \<open>
  \<open>save_user_data(user_id, title, data, category="General")\<close>: \<open>None\<close> stands for a call
  that leaves the argument out.
\<close>

definition save_user_data ::
  "timestamp \<Rightarrow> database \<Rightarrow> int \<Rightarrow> string \<Rightarrow> string \<Rightarrow> string option \<Rightarrow> bool \<times> database" where
  "save_user_data now db user_id title data category =
     (let category' = (case category of None \<Rightarrow> ''General'' | Some c \<Rightarrow> c)
      in case insert_user_data db now user_id title data category' of
           Inl e \<Rightarrow> (False, db)
         | Inr db' \<Rightarrow> (True, db'))"

text \<open>
  \<open>get_user_data(user_id, category=None)\<close>: the test \<open>if category:\<close> is false for \<open>None\<close>
  and for the empty string.
\<close>

definition get_user_data :: "database \<Rightarrow> int \<Rightarrow> string option \<Rightarrow> data_tuple list" where
  "get_user_data db user_id category =
     (case (case category of
              None \<Rightarrow> select_user_data db (\<lambda>r. d_user_id r = user_id)
            | Some c \<Rightarrow>
                if c \<noteq> [] then select_user_data db (\<lambda>r. d_user_id r = user_id \<and> d_category r = c)
                else select_user_data db (\<lambda>r. d_user_id r = user_id)) of
        Inl e \<Rightarrow> []
      | Inr rows \<Rightarrow> rows)"

definition get_categories :: "database \<Rightarrow> int \<Rightarrow> string list" where
  "get_categories db user_id =
     (case select_categories db user_id of
        Inl e \<Rightarrow> []
      | Inr rows \<Rightarrow> rows)"

subsection \<open>Example states and projections used in the statements\<close>

text \<open>
  The store after \<open>register_user("bob", "Passw0rd", "bob@x.com")\<close> on a new file, with
  \<open>toy_kdf\<close> for the key derivation and the random bytes \<open>r1\<close>.
\<close>

definition example_db :: database where
  "example_db =
     \<lparr>store_fault = None,
      users = [\<lparr>u_id = 1, u_username = ''bob'', u_password = ''7231$373233315061737377307264'',
                u_email = ''bob@x.com'', u_created_at = ''2024-01-01 10:00:00'',
                u_last_login = None, u_is_active = 1\<rparr>],
      user_data = [], login_attempts = []\<rparr>"

text \<open>The same store after \<open>save_user_data(1, "T", "B", "Work")\<close>.\<close>

definition example_db2 :: database where
  "example_db2 =
     example_db\<lparr>user_data :=
       [\<lparr>d_id = 1, d_user_id = 1, d_title = ''T'', d_data = ''B'', d_category = ''Work'',
         d_created_at = ''2024-01-01 10:00:09'', d_updated_at = ''2024-01-01 10:00:09''\<rparr>]\<rparr>"

text \<open>The columns \<open>created_at\<close> and \<open>category\<close> of a row that \<open>get_user_data\<close> returns.\<close>

definition tuple_created_at :: "data_tuple \<Rightarrow> timestamp" where
  "tuple_created_at t = (case t of (i, title, data, category, created_at) \<Rightarrow> created_at)"

definition tuple_category :: "data_tuple \<Rightarrow> string" where
  "tuple_category t = (case t of (i, title, data, category, created_at) \<Rightarrow> category)"

section \<open>Properties\<close>

subsection \<open>Splitting and hexadecimal encoding\<close>

lemma str_split_nonempty: "str_split sep s \<noteq> []"
  by (induction s) (auto split: list.splits)

lemma length_str_split: "length (str_split sep s) = Suc (count_list s sep)"
  by (induction s) (auto simp: str_split_nonempty split: list.splits)

lemma str_split_no_sep: "sep \<notin> set s \<Longrightarrow> str_split sep s = [s]"
  by (induction s) auto

lemma str_split_append: "sep \<notin> set a \<Longrightarrow> str_split sep (a @ sep # b) = a # str_split sep b"
  by (induction a) auto

lemma dollar_not_hex: "CHR ''$'' \<notin> set ''0123456789abcdef''"
  by simp

lemma hex_digit_no_dollar: "n < 16 \<Longrightarrow> hex_digit n \<noteq> CHR ''$''"
proof
  assume n: "n < 16" and eq: "hex_digit n = CHR ''$''"
  have "n < length ''0123456789abcdef''" using n by simp
  then have "''0123456789abcdef'' ! n \<in> set ''0123456789abcdef''" by (rule nth_mem)
  then have "CHR ''$'' \<in> set ''0123456789abcdef''" using eq by (simp only: hex_digit_def)
  then show False using dollar_not_hex by blast
qed

lemma byte_hi: "(of_char b :: nat) div 16 < 16"
proof -
  have "(of_char b :: nat) < 256" by (rule nat_of_char_less_256)
  then show ?thesis by arith
qed

lemma byte_lo: "(of_char b :: nat) mod 16 < 16"
  by simp

lemma bytes_hex_no_dollar: "CHR ''$'' \<notin> set (bytes_hex bs)"
proof (induction bs)
  case Nil
  show ?case by (simp add: bytes_hex_def)
next
  case (Cons b bs)
  have "bytes_hex (b # bs) =
      hex_digit (of_char b div 16) # hex_digit (of_char b mod 16) # bytes_hex bs"
    by (simp add: bytes_hex_def)
  then show ?case
    using Cons.IH hex_digit_no_dollar [OF byte_hi [of b]] hex_digit_no_dollar [OF byte_lo [of b]]
    by (simp del: of_char_mod_256)
qed

lemma is_hex_no_dollar: "is_hex s \<Longrightarrow> CHR ''$'' \<notin> set s"
proof (induction s)
  case Nil
  show ?case by simp
next
  case (Cons c s)
  then have "c \<in> set ''0123456789abcdefABCDEF''" and "is_hex s"
    by (simp_all add: is_hex_def)
  moreover have "CHR ''$'' \<notin> set ''0123456789abcdefABCDEF''" by simp
  ultimately show ?case using Cons.IH by auto
qed

lemma str_split_hash:
  assumes "CHR ''$'' \<notin> set s"
  shows "str_split (CHR ''$'') (s @ ''$'' @ bytes_hex h) = [s, bytes_hex h]"
proof -
  have "str_split (CHR ''$'') (s @ CHR ''$'' # bytes_hex h) = s # str_split (CHR ''$'') (bytes_hex h)"
    using assms by (rule str_split_append)
  moreover have "str_split (CHR ''$'') (bytes_hex h) = [bytes_hex h]"
    by (rule str_split_no_sep) (rule bytes_hex_no_dollar)
  ultimately show ?thesis by simp
qed

lemma verify_password_own_hash:
  assumes "CHR ''$'' \<notin> set s"
  shows "verify_password kdf (hash_password kdf e p (Some s)) p = Inr True"
proof -
  let ?h = "kdf ''sha256'' (encode p) (encode s) 100000"
  have st: "hash_password kdf e' p (Some s) = s @ ''$'' @ bytes_hex ?h" for e'
    by (simp add: hash_password_def)
  show ?thesis
    by (simp add: verify_password_def st str_split_hash [OF assms] del: append.simps)
qed

lemma token_hex_no_dollar: "CHR ''$'' \<notin> set (token_hex n e)"
  unfolding token_hex_def by (rule bytes_hex_no_dollar)

lemma hash_password_fresh:
  "hash_password kdf e p None = hash_password kdf e' p (Some (token_hex 16 e))"
  by (simp add: hash_password_def)

lemma verify_password_cases:
  "verify_password kdf stored p =
     (if length (str_split (CHR ''$'') stored) = 2
      then Inr (hash_password kdf [] p (Some (hd (str_split (CHR ''$'') stored))) = stored)
      else Inl ValueError)"
  by (auto simp: verify_password_def split: list.splits)

subsection \<open>Hashing and verification\<close>

text \<open>
  C1. For every password and every salt drawn from the hexadecimal alphabet, the hash of
  \<open>(password, salt)\<close> does not depend on the random source (two calls with the same pair
  return the same string), and \<open>verify_password\<close> accepts the password against its own
  hash; the same holds when the salt is omitted and freshly generated with \<open>token_hex\<close>.
\<close>

theorem hash_password_deterministic_verifies:
  assumes "is_hex salt"
  shows "hash_password kdf e1 password (Some salt) = hash_password kdf e2 password (Some salt)
       \<and> verify_password kdf (hash_password kdf e1 password (Some salt)) password = Inr True
       \<and> verify_password kdf (hash_password kdf e1 password None) password = Inr True"
proof -
  have det: "hash_password kdf e1 password (Some salt) = hash_password kdf e2 password (Some salt)"
    by (simp add: hash_password_def)
  have given: "verify_password kdf (hash_password kdf e1 password (Some salt)) password = Inr True"
    using is_hex_no_dollar [OF assms] by (rule verify_password_own_hash)
  have "verify_password kdf (hash_password kdf e1 password (Some (token_hex 16 e1))) password
      = Inr True"
    using token_hex_no_dollar by (rule verify_password_own_hash)
  then have fresh: "verify_password kdf (hash_password kdf e1 password None) password = Inr True"
    by (simp only: hash_password_fresh [of kdf e1 password e1])
  from det given fresh show ?thesis by blast
qed

theorem hash_password_deterministic_verifies_witness:
  "is_hex ''ab12''
   \<and> hash_password toy_kdf ''x'' ''Passw0rd'' (Some ''ab12'')
       = hash_password toy_kdf ''yz'' ''Passw0rd'' (Some ''ab12'')
   \<and> hash_password toy_kdf ''x'' ''Passw0rd'' (Some ''ab12'') = ''ab12$616231325061737377307264''
   \<and> verify_password toy_kdf (hash_password toy_kdf ''x'' ''Passw0rd'' (Some ''ab12'')) ''Passw0rd''
       = Inr True
   \<and> verify_password toy_kdf (hash_password toy_kdf ''x'' ''Passw0rd'' None) ''Passw0rd''
       = Inr True"
proof -
  have h: "is_hex ''ab12''" by (simp add: is_hex_def)
  have v: "hash_password toy_kdf ''x'' ''Passw0rd'' (Some ''ab12'') = ''ab12$616231325061737377307264''"
    by (simp add: hash_password_def toy_kdf_def encode_def bytes_hex_def hex_digit_def)
  show ?thesis
    using h v hash_password_deterministic_verifies [OF h, of toy_kdf "''x''" "''Passw0rd''" "''yz''"]
    by blast
qed

text \<open>
  C9. \<open>verify_password\<close> returns a boolean exactly when the stored string holds one
  separator \<open>$\<close>: with any other number of separators the tuple assignment raises
  \<open>ValueError\<close>. A string produced by \<open>hash_password\<close> from a hexadecimal salt, or from a
  freshly generated one, splits into exactly two parts and is answered with a boolean.
\<close>

theorem verify_password_wellformed_only:
  "(count_list stored (CHR ''$'') \<noteq> 1 \<longrightarrow> verify_password kdf stored p = Inl ValueError)
   \<and> (count_list stored (CHR ''$'') = 1 \<longrightarrow> (\<exists>b. verify_password kdf stored p = Inr b))
   \<and> (is_hex salt \<longrightarrow>
        length (str_split (CHR ''$'') (hash_password kdf e pw (Some salt))) = 2
        \<and> (\<exists>b. verify_password kdf (hash_password kdf e pw (Some salt)) p = Inr b))
   \<and> length (str_split (CHR ''$'') (hash_password kdf e pw None)) = 2
   \<and> (\<exists>b. verify_password kdf (hash_password kdf e pw None) p = Inr b)"
proof -
  have two: "length (str_split (CHR ''$'') (hash_password kdf e pw (Some s))) = 2"
    if "CHR ''$'' \<notin> set s" for s
    using str_split_hash [OF that] by (simp add: hash_password_def del: append.simps)
  have ret: "\<exists>b. verify_password kdf x p = Inr b"
    if "length (str_split (CHR ''$'') x) = 2" for x
    using that by (simp add: verify_password_cases)
  have a: "count_list stored (CHR ''$'') \<noteq> 1 \<longrightarrow> verify_password kdf stored p = Inl ValueError"
    by (simp add: verify_password_cases length_str_split)
  have b: "count_list stored (CHR ''$'') = 1 \<longrightarrow> (\<exists>b. verify_password kdf stored p = Inr b)"
    by (simp add: verify_password_cases length_str_split)
  have c: "is_hex salt \<longrightarrow>
        length (str_split (CHR ''$'') (hash_password kdf e pw (Some salt))) = 2
        \<and> (\<exists>b. verify_password kdf (hash_password kdf e pw (Some salt)) p = Inr b)"
    using two [OF is_hex_no_dollar] ret by blast
  have d: "length (str_split (CHR ''$'') (hash_password kdf e pw None)) = 2"
    using two [OF token_hex_no_dollar] by (simp only: hash_password_fresh [of kdf e pw e])
  from a b c d ret [OF d] show ?thesis by blast
qed

theorem verify_password_wellformed_only_witness:
  "count_list ''ab12'' (CHR ''$'') \<noteq> 1
   \<and> verify_password toy_kdf ''ab12'' ''Passw0rd'' = Inl ValueError
   \<and> count_list ''a$b$c'' (CHR ''$'') \<noteq> 1
   \<and> verify_password toy_kdf ''a$b$c'' ''Passw0rd'' = Inl ValueError
   \<and> count_list ''ab12$00'' (CHR ''$'') = 1
   \<and> verify_password toy_kdf ''ab12$00'' ''Passw0rd'' = Inr False
   \<and> is_hex ''ab12''
   \<and> length (str_split (CHR ''$'') (hash_password toy_kdf ''x'' ''Passw0rd'' (Some ''ab12''))) = 2
   \<and> (\<exists>b. verify_password toy_kdf (hash_password toy_kdf ''x'' ''Passw0rd'' (Some ''ab12'')) ''wrong''
          = Inr b)"
proof -
  have h: "is_hex ''ab12''" by (simp add: is_hex_def)
  have c0: "count_list ''ab12'' (CHR ''$'') \<noteq> 1" by simp
  have c2: "count_list ''a$b$c'' (CHR ''$'') \<noteq> 1" by simp
  have c1: "count_list ''ab12$00'' (CHR ''$'') = 1" by simp
  have f: "verify_password toy_kdf ''ab12$00'' ''Passw0rd'' = Inr False"
    by (simp add: verify_password_def hash_password_def toy_kdf_def encode_def bytes_hex_def
        hex_digit_def)
  show ?thesis
    using h c0 c1 c2 f
      verify_password_wellformed_only [of "''ab12''" toy_kdf "''Passw0rd''" "''ab12''" "''x''" "''Passw0rd''"]
      verify_password_wellformed_only [of "''a$b$c''" toy_kdf "''Passw0rd''" "''ab12''" "''x''" "''Passw0rd''"]
      verify_password_wellformed_only [of "''ab12''" toy_kdf "''wrong''" "''ab12''" "''x''" "''Passw0rd''"]
    by blast
qed

subsection \<open>The example states are reached by the program\<close>

lemma example_db_registered:
  "register_user toy_kdf ''r1'' ''2024-01-01 10:00:00'' init_db ''bob'' ''Passw0rd'' ''bob@x.com''
     = ((True, RegistrationOk), example_db)"
  by (simp add: register_user_def select_users_def fetchone_def insert_user_def init_db_def
      next_id_def hash_password_def token_hex_def toy_kdf_def encode_def bytes_hex_def
      hex_digit_def example_db_def)

lemma example_db2_saved:
  "save_user_data ''2024-01-01 10:00:09'' example_db 1 ''T'' ''B'' (Some ''Work'')
     = (True, example_db2)"
  by (simp add: save_user_data_def insert_user_data_def example_db_def example_db2_def next_id_def)

subsection \<open>Queries\<close>

lemma select_users_ok:
  "store_fault db = None \<Longrightarrow> select_users db cond = Inr (filter cond (users db))"
  by (simp add: select_users_def)

lemma select_users_fault:
  "store_fault db = Some e \<Longrightarrow> select_users db cond = Inl e"
  by (simp add: select_users_def)

lemma fetchone_filter_Some:
  "x \<in> set xs \<Longrightarrow> cond x \<Longrightarrow> \<exists>r. fetchone (filter cond xs) = Some r"
  by (induction xs) (auto simp: fetchone_def)

lemma fetchone_filter_unique:
  assumes "distinct (map key xs)" and "x \<in> set xs" and "cond x"
    and "\<And>y. y \<in> set xs \<Longrightarrow> cond y \<Longrightarrow> key y = key x"
  shows "fetchone (filter cond xs) = Some x"
  using assms
proof (induction xs)
  case Nil
  then show ?case by simp
next
  case (Cons a xs)
  show ?case
  proof (cases "cond a")
    case True
    then have "key a = key x" using Cons.prems(4) [of a] by simp
    then have "a = x" using Cons.prems(1,2) by (auto simp: image_iff)
    with True show ?thesis by (simp add: fetchone_def)
  next
    case False
    then have "x \<in> set xs" using Cons.prems(2,3) by auto
    moreover have "distinct (map key xs)" using Cons.prems(1) by simp
    moreover have "\<And>y. y \<in> set xs \<Longrightarrow> cond y \<Longrightarrow> key y = key x"
      using Cons.prems(4) by (meson list.set_intros(2))
    ultimately have "fetchone (filter cond xs) = Some x"
      using Cons.prems(3) by (intro Cons.IH)
    with False show ?thesis by simp
  qed
qed

lemma count_unique_key:
  "distinct (map key xs) \<Longrightarrow> a \<in> set (map key xs)
     \<Longrightarrow> length (filter (\<lambda>r. key r = a) xs) = 1"
proof (induction xs)
  case Nil
  then show ?case by simp
next
  case (Cons x xs)
  show ?case
  proof (cases "key x = a")
    case True
    then have "a \<notin> set (map key xs)" using Cons.prems(1) by simp
    then have "filter (\<lambda>r. key r = a) xs = []" by (auto simp: filter_empty_conv)
    with True show ?thesis by simp
  next
    case False
    then show ?thesis using Cons by auto
  qed
qed

subsection \<open>The schema's uniqueness of usernames is kept by every operation\<close>

lemma init_db_unique: "distinct (map u_username (users init_db))"
  by (simp add: init_db_def)

lemma register_user_keeps_unique:
  assumes "distinct (map u_username (users db))"
  shows "distinct (map u_username (users (snd (register_user kdf e now db username password email))))"
  using assms
  by (auto simp: register_user_def select_users_def insert_user_def Let_def
      split: option.splits sum.splits if_splits)

lemma login_user_keeps_usernames:
  "map u_username (users (snd (login_user kdf now db username password)))
     = map u_username (users db)"
  by (auto simp: login_user_def select_users_def update_last_login_def o_def
      split: option.splits sum.splits bool.splits)

lemma save_user_data_keeps_users:
  "users (snd (save_user_data now db uid title data category)) = users db"
  by (auto simp: save_user_data_def insert_user_data_def Let_def split: option.splits)

subsection \<open>Registration\<close>

lemma register_user_duplicate:
  assumes "store_fault db = None"
    and "r \<in> set (users db)" and "u_username r = username \<or> u_email r = email"
  shows "register_user kdf e now db username password email = ((False, DuplicateUser), db)"
proof -
  obtain r' where "fetchone (filter (\<lambda>r. u_username r = username \<or> u_email r = email) (users db))
      = Some r'"
    using fetchone_filter_Some [OF assms(2), of "\<lambda>r. u_username r = username \<or> u_email r = email"]
      assms(3) by blast
  then show ?thesis
    by (simp add: register_user_def select_users_ok [OF assms(1)])
qed

text \<open>
  C4. In every state of a working store with unique usernames in which a user named
  \<open>username\<close> exists, \<open>register_user\<close> with that username fails with \<open>DuplicateUser\<close> and
  returns the store as it was: no row is inserted and exactly one row carries the name.
\<close>

theorem register_user_existing_username:
  assumes "store_fault db = None"
    and "distinct (map u_username (users db))"
    and "username \<in> set (map u_username (users db))"
  shows "register_user kdf e now db username password email = ((False, DuplicateUser), db)
       \<and> users (snd (register_user kdf e now db username password email)) = users db
       \<and> length (filter (\<lambda>r. u_username r = username)
            (users (snd (register_user kdf e now db username password email)))) = 1"
proof -
  obtain r where "r \<in> set (users db)" and "u_username r = username"
    using assms(3) by auto
  then have dup: "register_user kdf e now db username password email = ((False, DuplicateUser), db)"
    using register_user_duplicate [OF assms(1), of r username email] by blast
  have "length (filter (\<lambda>r. u_username r = username) (users db)) = 1"
    using assms(2,3) by (rule count_unique_key)
  with dup show ?thesis by simp
qed

theorem register_user_existing_username_witness:
  "store_fault example_db = None
   \<and> distinct (map u_username (users example_db))
   \<and> ''bob'' \<in> set (map u_username (users example_db))
   \<and> register_user toy_kdf ''r2'' ''2024-01-01 10:00:05'' example_db ''bob'' ''Passw0rd'' ''''
       = ((False, DuplicateUser), example_db)
   \<and> length (filter (\<lambda>r. u_username r = ''bob'')
        (users (snd (register_user toy_kdf ''r2'' ''2024-01-01 10:00:05'' example_db ''bob''
           ''Passw0rd'' '''')))) = 1"
proof -
  have a: "store_fault example_db = None" by (simp add: example_db_def)
  have b: "distinct (map u_username (users example_db))" by (simp add: example_db_def)
  have c: "''bob'' \<in> set (map u_username (users example_db))" by (simp add: example_db_def)
  show ?thesis
    using a b c register_user_existing_username [OF a b c, of toy_kdf "''r2''"
        "''2024-01-01 10:00:05''" "''Passw0rd''" "''''"]
    by blast
qed

text \<open>
  C2. The claim asks that two registrations with different usernames and both with an
  empty email succeed. The query of \<open>register_user\<close> compares the email as given, the
  empty string too: after a first registration with the empty email, every second one
  with the empty email is refused as a duplicate, whatever the two usernames are.
\<close>

theorem register_user_second_empty_email:
  "fst (register_user kdf e1 t1 init_db u1 p1 '''') = (True, RegistrationOk)
   \<and> register_user kdf e2 t2 (snd (register_user kdf e1 t1 init_db u1 p1 '''')) u2 p2 ''''
       = ((False, DuplicateUser), snd (register_user kdf e1 t1 init_db u1 p1 ''''))"
proof -
  let ?row = "\<lparr>u_id = 1, u_username = u1, u_password = hash_password kdf e1 p1 None,
      u_email = '''', u_created_at = t1, u_last_login = None, u_is_active = 1\<rparr>"
  let ?db = "init_db\<lparr>users := [?row]\<rparr>"
  have first: "register_user kdf e1 t1 init_db u1 p1 '''' = ((True, RegistrationOk), ?db)"
    by (simp add: register_user_def select_users_def fetchone_def insert_user_def init_db_def
        next_id_def)
  have "register_user kdf e2 t2 ?db u2 p2 '''' = ((False, DuplicateUser), ?db)"
    by (rule register_user_duplicate [of _ ?row]) (simp_all add: init_db_def)
  with first show ?thesis by simp
qed

subsection \<open>Login\<close>

text \<open>
  C3. The claim asks for one new row of \<open>login_attempts\<close> on every call of \<open>login_user\<close>.
  No branch of \<open>login_user\<close> writes to that table: it is the same after the call as
  before, for every outcome.
\<close>

theorem login_user_never_records_attempt:
  "login_attempts (snd (login_user kdf now db username password)) = login_attempts db"
  by (simp add: login_user_def select_users_def update_last_login_def
      split: option.splits sum.splits bool.splits)

text \<open>
  C5. For an active user of a working store with unique usernames and a password that
  \<open>verify_password\<close> rejects against the stored hash, \<open>login_user\<close> fails with
  \<open>WrongPassword\<close> and returns the store unchanged; in particular every \<open>last_login\<close> is
  as before.
\<close>

theorem login_user_wrong_password:
  assumes "store_fault db = None"
    and "distinct (map u_username (users db))"
    and "r \<in> set (users db)" and "u_username r = username" and "u_is_active r = 1"
    and "verify_password kdf (u_password r) password = Inr False"
  shows "login_user kdf now db username password = (Inr (False, WrongPassword), db)
       \<and> map u_last_login (users (snd (login_user kdf now db username password)))
           = map u_last_login (users db)"
proof -
  have "fetchone (filter (\<lambda>r. u_username r = username \<and> u_is_active r = 1) (users db)) = Some r"
    using assms(2,3) by (rule fetchone_filter_unique) (simp_all add: assms(4,5))
  then have "login_user kdf now db username password = (Inr (False, WrongPassword), db)"
    by (simp add: login_user_def select_users_ok [OF assms(1)] assms(6))
  then show ?thesis by simp
qed

theorem login_user_wrong_password_witness:
  "store_fault example_db = None
   \<and> distinct (map u_username (users example_db))
   \<and> hd (users example_db) \<in> set (users example_db)
   \<and> u_username (hd (users example_db)) = ''bob''
   \<and> u_is_active (hd (users example_db)) = 1
   \<and> verify_password toy_kdf (u_password (hd (users example_db))) ''wrong'' = Inr False
   \<and> login_user toy_kdf ''2024-01-01 10:00:09'' example_db ''bob'' ''wrong''
       = (Inr (False, WrongPassword), example_db)
   \<and> map u_last_login (users (snd (login_user toy_kdf ''2024-01-01 10:00:09'' example_db
         ''bob'' ''wrong''))) = [None]"
proof -
  have a: "store_fault example_db = None" by (simp add: example_db_def)
  have b: "distinct (map u_username (users example_db))" by (simp add: example_db_def)
  have c: "hd (users example_db) \<in> set (users example_db)" by (simp add: example_db_def)
  have d: "u_username (hd (users example_db)) = ''bob''" by (simp add: example_db_def)
  have e: "u_is_active (hd (users example_db)) = 1" by (simp add: example_db_def)
  have f: "verify_password toy_kdf (u_password (hd (users example_db))) ''wrong'' = Inr False"
    by (simp add: example_db_def verify_password_def hash_password_def toy_kdf_def encode_def
        bytes_hex_def hex_digit_def)
  have g: "map u_last_login (users example_db) = [None]" by (simp add: example_db_def)
  show ?thesis
    using a b c d e f g
      login_user_wrong_password [OF a b c d e f, of "''2024-01-01 10:00:09''"]
    by simp
qed

subsection \<open>Saving a record\<close>

text \<open>
  C7 as stated fails: saving with the empty string as category stores a row whose
  category is the empty string, not \<open>General\<close>.
\<close>

theorem save_user_data_blank_category_counterexample:
  "fst (save_user_data ''2024-01-01 10:00:09'' example_db 1 ''T'' ''B'' (Some '''')) = True
   \<and> map d_category
        (user_data (snd (save_user_data ''2024-01-01 10:00:09'' example_db 1 ''T'' ''B'' (Some ''''))))
       = ['''']
   \<and> d_category
        (last (user_data (snd (save_user_data ''2024-01-01 10:00:09'' example_db 1 ''T'' ''B''
           (Some ''''))))) \<noteq> ''General''"
  by (simp add: save_user_data_def insert_user_data_def example_db_def next_id_def)

text \<open>
  C7, as amended. A call of \<open>save_user_data\<close> for an existing user on a working store
  appends one row; its category is \<open>General\<close> when the argument is left out, and
  otherwise the argument as given, the empty string included.
\<close>

theorem save_user_data_category:
  assumes "store_fault db = None" and "user_id \<in> set (map u_id (users db))"
  shows "fst (save_user_data now db user_id title data category) = True
       \<and> user_data (snd (save_user_data now db user_id title data category))
           = user_data db
               @ [last (user_data (snd (save_user_data now db user_id title data category)))]
       \<and> d_category (last (user_data (snd (save_user_data now db user_id title data category))))
           = (case category of None \<Rightarrow> ''General'' | Some c \<Rightarrow> c)"
  using assms by (simp add: save_user_data_def insert_user_data_def split: option.splits)

theorem save_user_data_category_witness:
  "store_fault example_db = None
   \<and> (1::int) \<in> set (map u_id (users example_db))
   \<and> fst (save_user_data ''2024-01-01 10:00:09'' example_db 1 ''T'' ''B'' None) = True
   \<and> d_category (last (user_data (snd (save_user_data ''2024-01-01 10:00:09'' example_db 1
         ''T'' ''B'' None)))) = ''General''
   \<and> d_category (last (user_data (snd (save_user_data ''2024-01-01 10:00:09'' example_db 1
         ''T'' ''B'' (Some ''Work''))))) = ''Work''
   \<and> d_category (last (user_data (snd (save_user_data ''2024-01-01 10:00:09'' example_db 1
         ''T'' ''B'' (Some ''''))))) = ''''"
proof -
  have a: "store_fault example_db = None" by (simp add: example_db_def)
  have b: "(1::int) \<in> set (map u_id (users example_db))" by (simp add: example_db_def)
  show ?thesis
    using a b
      save_user_data_category [OF a b, of "''2024-01-01 10:00:09''" "''T''" "''B''" None]
      save_user_data_category [OF a b, of "''2024-01-01 10:00:09''" "''T''" "''B''" "Some ''Work''"]
      save_user_data_category [OF a b, of "''2024-01-01 10:00:09''" "''T''" "''B''" "Some ''''"]
    by simp
qed

subsection \<open>Listing records\<close>

lemma select_user_data_ok:
  "store_fault db = None \<Longrightarrow>
     select_user_data db cond
       = Inr (map data_columns (rev (sort_key d_created_at (filter cond (user_data db)))))"
  by (simp add: select_user_data_def)

lemma get_user_data_ok:
  assumes "store_fault db = None"
  shows "get_user_data db uid category
       = map data_columns (rev (sort_key d_created_at
           (filter (\<lambda>r. d_user_id r = uid
                \<and> (case category of None \<Rightarrow> True | Some c \<Rightarrow> c = [] \<or> d_category r = c))
              (user_data db))))"
proof (cases category)
  case None
  then show ?thesis by (simp add: get_user_data_def select_user_data_ok [OF assms])
next
  case (Some c)
  then show ?thesis by (cases "c = []") (simp_all add: get_user_data_def select_user_data_ok [OF assms])
qed

lemma get_user_data_fault:
  "store_fault db = Some e \<Longrightarrow> get_user_data db uid category = []"
  by (simp add: get_user_data_def select_user_data_def split: option.splits)

lemma get_categories_fault:
  "store_fault db = Some e \<Longrightarrow> get_categories db uid = []"
  by (simp add: get_categories_def select_categories_def)

lemma tuple_created_at_columns: "tuple_created_at (data_columns r) = d_created_at r"
  by (simp add: tuple_created_at_def data_columns_def)

lemma newest_first:
  "sorted_wrt (\<lambda>a b. tuple_created_at b \<le> tuple_created_at a)
     (map data_columns (rev (sort_key d_created_at rows)))"
proof -
  have "sorted (map d_created_at (sort_key d_created_at rows))"
    by (rule sorted_sort_key)
  then have "sorted_wrt (\<lambda>a b. d_created_at a \<le> d_created_at b) (sort_key d_created_at rows)"
    by (simp add: sorted_wrt_map)
  then have "sorted_wrt (\<lambda>a b. d_created_at b \<le> d_created_at a)
      (rev (sort_key d_created_at rows))"
    by (simp add: sorted_wrt_rev)
  then show ?thesis
    by (simp add: sorted_wrt_map tuple_created_at_columns)
qed

text \<open>
  C8 as stated fails for the empty string as category argument: the test
  \<open>if category:\<close> is false, no filter is applied, and a row of category \<open>Work\<close> is
  returned.
\<close>

theorem get_user_data_empty_category_counterexample:
  "get_user_data example_db2 1 (Some '''') = [(1, ''T'', ''B'', ''Work'', ''2024-01-01 10:00:09'')]
   \<and> tuple_category (hd (get_user_data example_db2 1 (Some ''''))) \<noteq> ''''"
  by (simp add: get_user_data_def select_user_data_def example_db2_def example_db_def
      data_columns_def tuple_category_def)

text \<open>
  C8, as amended. On a working store \<open>get_user_data\<close> returns exactly the rows of the
  owner, newest first; a non-empty category argument keeps only the rows with that very
  category, while an empty one filters nothing, like an omitted one; when no row matches,
  the result is the empty list.
\<close>

theorem get_user_data_listing:
  assumes "store_fault db = None"
  shows "mset (get_user_data db uid category)
         = mset (map data_columns
             (filter (\<lambda>r. d_user_id r = uid
                  \<and> (case category of None \<Rightarrow> True | Some c \<Rightarrow> c = [] \<or> d_category r = c))
                (user_data db)))
       \<and> sorted_wrt (\<lambda>a b. tuple_created_at b \<le> tuple_created_at a)
           (get_user_data db uid category)
       \<and> (filter (\<lambda>r. d_user_id r = uid
                \<and> (case category of None \<Rightarrow> True | Some c \<Rightarrow> c = [] \<or> d_category r = c))
              (user_data db) = []
            \<longrightarrow> get_user_data db uid category = [])"
  unfolding get_user_data_ok [OF assms]
  using newest_first by simp

theorem get_user_data_listing_witness:
  "store_fault example_db2 = None
   \<and> get_user_data example_db2 1 None = [(1, ''T'', ''B'', ''Work'', ''2024-01-01 10:00:09'')]
   \<and> mset (get_user_data example_db2 1 (Some ''Work''))
       = mset (map data_columns (user_data example_db2))
   \<and> filter (\<lambda>r. d_user_id r = 1 \<and> d_category r = ''Other'') (user_data example_db2) = []
   \<and> get_user_data example_db2 1 (Some ''Other'') = []"
proof -
  have a: "store_fault example_db2 = None" by (simp add: example_db2_def example_db_def)
  have b: "filter (\<lambda>r. d_user_id r = 1 \<and> d_category r = ''Other'') (user_data example_db2) = []"
    by (simp add: example_db2_def)
  have c: "get_user_data example_db2 1 None = [(1, ''T'', ''B'', ''Work'', ''2024-01-01 10:00:09'')]"
    by (simp add: get_user_data_def select_user_data_def example_db2_def example_db_def
        data_columns_def)
  have d: "filter (\<lambda>r. d_user_id r = 1 \<and> d_category r = ''Work'') (user_data example_db2)
      = user_data example_db2"
    by (simp add: example_db2_def)
  show ?thesis
    using a b c d
      get_user_data_listing [OF a, of 1 "Some ''Other''"]
      get_user_data_listing [OF a, of 1 "Some ''Work''"]
    by simp
qed

text \<open>
  C10. When the store answers with an error, \<open>get_user_data\<close> and \<open>get_categories\<close>
  return the empty list: the same answer as on a working store in which the user owns no
  record.
\<close>

theorem listing_swallows_store_failure:
  assumes "store_fault db = Some err"
    and "store_fault db0 = None"
    and "filter (\<lambda>r. d_user_id r = uid) (user_data db0) = []"
  shows "get_user_data db uid category = [] \<and> get_categories db uid = []
       \<and> get_user_data db uid category = get_user_data db0 uid category
       \<and> get_categories db uid = get_categories db0 uid"
proof -
  have "filter (\<lambda>r. d_user_id r = uid \<and> P r) (user_data db0) = []" for P
    using assms(3) by (auto simp: filter_empty_conv)
  then have "get_user_data db0 uid category = []"
    by (simp add: get_user_data_ok [OF assms(2)])
  moreover have "get_categories db0 uid = []"
    using assms(2,3) by (simp add: get_categories_def select_categories_def)
  ultimately show ?thesis
    using get_user_data_fault [OF assms(1)] get_categories_fault [OF assms(1)] by simp
qed

theorem listing_swallows_store_failure_witness:
  "store_fault (close example_db2) = Some ProgrammingError
   \<and> store_fault example_db = None
   \<and> filter (\<lambda>r. d_user_id r = 1) (user_data example_db) = []
   \<and> get_user_data example_db2 1 None \<noteq> []
   \<and> get_user_data (close example_db2) 1 None = []
   \<and> get_categories (close example_db2) 1 = []
   \<and> get_user_data (close example_db2) 1 None = get_user_data example_db 1 None
   \<and> get_categories (close example_db2) 1 = get_categories example_db 1"
proof -
  have a: "store_fault (close example_db2) = Some ProgrammingError" by (simp add: close_def)
  have b: "store_fault example_db = None" by (simp add: example_db_def)
  have c: "filter (\<lambda>r. d_user_id r = 1) (user_data example_db) = []" by (simp add: example_db_def)
  have d: "get_user_data example_db2 1 None \<noteq> []"
    by (simp add: get_user_data_def select_user_data_def example_db2_def example_db_def)
  show ?thesis
    using a b c d listing_swallows_store_failure [OF a b c, of None]
    by blast
qed

end
